theory Spec2Isabelle
  imports Complex_Main "HOL-Library.Word"
begin

section \<open>Values held by the configuration store\<close>

text \<open>
  The store of \<^verbatim>\<open>config.go\<close> maps string keys to Go values of type \<^verbatim>\<open>any\<close>.
  The code inspects the dynamic type of such a value by type switches and type
  assertions, so the model is a tagged union over the dynamic types the code tells
  apart, with one more constructor for every other dynamic type.
\<close>

subsection \<open>Go's \<^verbatim>\<open>int\<close>\<close>

text \<open>
  Go's \<^verbatim>\<open>int\<close> is taken at its width on 64-bit platforms: a 64-bit word read in
  two's complement by \<open>sint\<close>.
\<close>

type_synonym go_int = "64 word"

subsection \<open>Go's \<^verbatim>\<open>float64\<close>\<close>

text \<open>
  A \<^verbatim>\<open>float64\<close> is a finite number, an infinity or a NaN. Finite numbers are carried
  by their exact real value; the two zeros are not told apart (the code only
  compares and converts floats, and both zeros compare equal and convert to 0).
  Not every real is a \<^verbatim>\<open>float64\<close>: the theorems below hold for every real,
  so in particular for the representable ones.
\<close>

datatype float64 = Finite real | PosInf | NegInf | NaN

text \<open>The comparisons \<^verbatim>\<open><\<close>, \<^verbatim>\<open>></\<close> and \<^verbatim>\<open>!=\<close> of IEEE 754: every ordered comparison with a NaN
  is false, and a NaN differs from everything, itself included.\<close>

fun float64_lt :: "float64 \<Rightarrow> float64 \<Rightarrow> bool" where
  "float64_lt NaN _ = False"
| "float64_lt _ NaN = False"
| "float64_lt (Finite a) (Finite b) = (a < b)"
| "float64_lt (Finite _) PosInf = True"
| "float64_lt (Finite _) NegInf = False"
| "float64_lt NegInf NegInf = False"
| "float64_lt NegInf _ = True"
| "float64_lt PosInf _ = False"

definition float64_gt :: "float64 \<Rightarrow> float64 \<Rightarrow> bool" where
  "float64_gt a b = float64_lt b a"

definition float64_ne :: "float64 \<Rightarrow> float64 \<Rightarrow> bool" where
  "float64_ne a b = (a = NaN \<or> b = NaN \<or> a \<noteq> b)"

text \<open>
  The conversion \<^verbatim>\<open>float64(i)\<close> of an \<^verbatim>\<open>int\<close>: the nearest \<^verbatim>\<open>float64\<close>, ties going to
  the even significand. A \<^verbatim>\<open>float64\<close> has a significand of 53 bits;
  \<open>excess_bits a\<close> is the number of bits a non-negative integer \<open>a\<close> has beyond 53, which
  are those the conversion rounds away: with \<open>q\<close> the leading 53 bits and \<open>r\<close> the rest,
  \<open>nearest_float64\<close> rounds \<open>q\<close> up when \<open>r\<close> is more than half a unit of \<open>q\<close>, or is
  half a unit and \<open>q\<close> is odd.
\<close>

function excess_bits :: "int \<Rightarrow> nat" where
  "excess_bits a = (if a < 2 ^ 53 then 0 else Suc (excess_bits (a div 2)))"
  by pat_completeness auto
termination
  by (relation "measure nat") auto

declare excess_bits.simps [simp del]

definition nearest_float64 :: "int \<Rightarrow> int" where
  "nearest_float64 n =
     (let a = \<bar>n\<bar>;
          e = excess_bits a;
          q = a div 2 ^ e;
          r = a mod 2 ^ e;
          q' = (if 2 * r > 2 ^ e \<or> (2 * r = 2 ^ e \<and> odd q) then q + 1 else q)
      in sgn n * (q' * 2 ^ e))"

definition int_to_float64 :: "go_int \<Rightarrow> float64" where
  "int_to_float64 i = Finite (of_int (nearest_float64 (sint i)))"

text \<open>Truncation towards zero of a real number.\<close>

definition trunc :: "real \<Rightarrow> int" where
  "trunc r = (if 0 \<le> r then \<lfloor>r\<rfloor> else \<lceil>r\<rceil>)"

text \<open>
  The conversion \<^verbatim>\<open>int(f)\<close> of a \<^verbatim>\<open>float64\<close>: the fraction is discarded. Where \<^verbatim>\<open>int\<close>
  cannot represent the result (a NaN, an infinity, a truncation outside
  \<open>-2^63 .. 2^63 - 1\<close>) the language leaves the value to the implementation; that choice
  is the parameter \<open>impl\<close>.
\<close>

type_synonym float_to_int_impl = "float64 \<Rightarrow> go_int"

definition float64_to_int :: "float_to_int_impl \<Rightarrow> float64 \<Rightarrow> go_int" where
  "float64_to_int impl f =
     (case f of
        Finite r \<Rightarrow>
          (if - (2 ^ 63) \<le> trunc r \<and> trunc r < 2 ^ 63 then word_of_int (trunc r)
           else impl f)
      | _ \<Rightarrow> impl f)"

text \<open>Two implementations: x86-64 yields the least \<^verbatim>\<open>int\<close> for every unrepresentable
  result; arm64 saturates, and yields 0 for a NaN.\<close>

definition impl_amd64 :: float_to_int_impl where
  "impl_amd64 f = word_of_int (- (2 ^ 63))"

definition impl_arm64 :: float_to_int_impl where
  "impl_arm64 f =
     (case f of
        NaN \<Rightarrow> 0
      | PosInf \<Rightarrow> word_of_int (2 ^ 63 - 1)
      | NegInf \<Rightarrow> word_of_int (- (2 ^ 63))
      | Finite r \<Rightarrow> (if 0 \<le> r then word_of_int (2 ^ 63 - 1) else word_of_int (- (2 ^ 63))))"

subsection \<open>Slices and dynamic values\<close>

text \<open>A slice is \<^verbatim>\<open>nil\<close> (\<open>None\<close>) or holds its elements; \<^verbatim>\<open>len\<close> and \<^verbatim>\<open>range\<close> see a
  \<^verbatim>\<open>nil\<close> slice as empty.\<close>

type_synonym 'a slice = "'a list option"

definition elems :: "'a slice \<Rightarrow> 'a list" where
  "elems s = (case s of None \<Rightarrow> [] | Some xs \<Rightarrow> xs)"

text \<open>
  \<open>VNil\<close> is the \<^verbatim>\<open>nil\<close> interface value (the zero value of \<^verbatim>\<open>any\<close>). \<open>VOther t d\<close> is a
  value of any further dynamic type, named \<open>t\<close>, with its content \<open>d\<close> left opaque
  (a nested map read from a file, an \<^verbatim>\<open>int64\<close>, ...).
\<close>

datatype any =
    VNil
  | VString string
  | VInt go_int
  | VFloat float64
  | VBool bool
  | VStringSlice "string slice"
  | VAnySlice "any slice"
  | VOther string nat

type_synonym valuemap = "string \<rightharpoonup> any"

text \<open>The types \<^verbatim>\<open>reflect.TypeOf\<close> tells apart; \<^verbatim>\<open>reflect.TypeOf(nil)\<close> is the
  \<^verbatim>\<open>nil\<close> type, \<open>None\<close>.\<close>

datatype go_type =
  TString | TInt | TFloat64 | TBool | TStringSlice | TAnySlice | TNamed string

fun TypeOf :: "any \<Rightarrow> go_type option" where
  "TypeOf VNil = None"
| "TypeOf (VString _) = Some TString"
| "TypeOf (VInt _) = Some TInt"
| "TypeOf (VFloat _) = Some TFloat64"
| "TypeOf (VBool _) = Some TBool"
| "TypeOf (VStringSlice _) = Some TStringSlice"
| "TypeOf (VAnySlice _) = Some TAnySlice"
| "TypeOf (VOther t _) = Some (TNamed t)"

section \<open>Errors\<close>

text \<open>
  Each \<^verbatim>\<open>fmt.Errorf\<close> of the code is a constructor holding the arguments of its format
  string; \<open>ErrorString\<close> is an error made elsewhere (by a source or by a validator of
  the caller).
  \<^item> \<open>FailedToLoad e\<close>: \<^verbatim>\<open>"failed to load configuration: %w"\<close>, wrapping \<open>e\<close>;
  \<^item> \<open>RequiredKeyMissing k\<close>: \<^verbatim>\<open>"required configuration key missing: %s"\<close>;
  \<^item> \<open>InvalidType k t a\<close>: \<^verbatim>\<open>"invalid type for key %s: expected %v, got %v"\<close>;
  \<^item> \<open>ExpectedNumber k\<close>: \<^verbatim>\<open>"invalid type for range validation on key %s: expected number"\<close>;
  \<^item> \<open>OutOfRange k lo hi\<close>: \<^verbatim>\<open>"value for key %s is out of range: expected between %v and %v"\<close>;
  \<^item> \<open>MustBeInteger k\<close>: \<^verbatim>\<open>"value for key %s must be an integer"\<close>.
\<close>

datatype error =
    ErrorString string
  | FailedToLoad error
  | RequiredKeyMissing string
  | InvalidType string "go_type option" "go_type option"
  | ExpectedNumber string
  | OutOfRange string float64 float64
  | MustBeInteger string

text \<open>\<^verbatim>\<open>errors.Unwrap\<close>: the error wrapped by \<^verbatim>\<open>%w\<close>, if any.\<close>

fun Unwrap :: "error \<Rightarrow> error option" where
  "Unwrap (FailedToLoad e) = Some e"
| "Unwrap _ = None"

section \<open>Validators\<close>

text \<open>\<^verbatim>\<open>RequiredValidator.Validate\<close>: the loop over \<^verbatim>\<open>v.Keys\<close>.\<close>

fun RequiredValidator_Validate :: "string list \<Rightarrow> valuemap \<Rightarrow> error option" where
  "RequiredValidator_Validate [] vals = None"
| "RequiredValidator_Validate (key # keys) vals =
     (case vals key of
        None \<Rightarrow> Some (RequiredKeyMissing key)
      | Some _ \<Rightarrow> RequiredValidator_Validate keys vals)"

text \<open>\<^verbatim>\<open>TypeValidator.Validate\<close>.\<close>

definition TypeValidator_Validate :: "string \<Rightarrow> go_type option \<Rightarrow> valuemap \<Rightarrow> error option" where
  "TypeValidator_Validate Key Type vals =
     (case vals Key of
        None \<Rightarrow> None
      | Some v \<Rightarrow>
          (let actualType = TypeOf v
           in if actualType \<noteq> Type then Some (InvalidType Key Type actualType) else None))"

text \<open>\<^verbatim>\<open>RangeValidator.Validate\<close>.\<close>

definition RangeValidator_Validate ::
  "float_to_int_impl \<Rightarrow> string \<Rightarrow> float64 \<Rightarrow> float64 \<Rightarrow> bool \<Rightarrow> valuemap \<Rightarrow> error option" where
  "RangeValidator_Validate impl Key vMin vMax IsInt vals =
     (case vals Key of
        None \<Rightarrow> None
      | Some v \<Rightarrow>
          (case (case v of VFloat val \<Rightarrow> Some val
                         | VInt val \<Rightarrow> Some (int_to_float64 val)
                         | _ \<Rightarrow> None) of
             None \<Rightarrow> Some (ExpectedNumber Key)
           | Some floatValue \<Rightarrow>
               if float64_lt floatValue vMin \<or> float64_gt floatValue vMax
                 then Some (OutOfRange Key vMin vMax)
               else if IsInt \<and>
                       float64_ne floatValue (int_to_float64 (float64_to_int impl floatValue))
                 then Some (MustBeInteger Key)
               else None))"

text \<open>
  The interface \<^verbatim>\<open>Validator\<close>: the three validators of the package, and any other
  implementation, given by what its \<^verbatim>\<open>Validate\<close> method returns on a map it only reads
  (the \<^verbatim>\<open>MockValidator\<close> of the tests is \<open>CustomValidator (\<lambda>_. Some e)\<close> or
  \<open>CustomValidator (\<lambda>_. None)\<close>).
\<close>

datatype validator =
    RequiredValidator "string list"
  | TypeValidator string "go_type option"
  | RangeValidator string float64 float64 bool
  | CustomValidator "valuemap \<Rightarrow> error option"

fun validator_Validate :: "float_to_int_impl \<Rightarrow> validator \<Rightarrow> valuemap \<Rightarrow> error option" where
  "validator_Validate impl (RequiredValidator Keys) vals = RequiredValidator_Validate Keys vals"
| "validator_Validate impl (TypeValidator Key Type) vals = TypeValidator_Validate Key Type vals"
| "validator_Validate impl (RangeValidator Key vMin vMax IsInt) vals =
     RangeValidator_Validate impl Key vMin vMax IsInt vals"
| "validator_Validate impl (CustomValidator f) vals = f vals"

section \<open>The configuration manager\<close>

text \<open>
  The struct \<^verbatim>\<open>ConfigManager\<close>. The model is sequential: every method releases the lock
  it takes before it returns, so the mutex is free between two calls and is left out.
  Each method takes the manager and returns its result with the manager afterwards.
  The record holds the managers that \<^verbatim>\<open>New\<close> and the methods make: \<^verbatim>\<open>New\<close> allocates the
  map and no method sets it to \<^verbatim>\<open>nil\<close>.
\<close>

record ConfigManager =
  "values" :: valuemap
  validators :: "validator list"

definition New :: ConfigManager where
  "New = \<lparr>values = Map.empty, validators = []\<rparr>"

definition Get :: "string \<Rightarrow> ConfigManager \<Rightarrow> (any \<times> bool) \<times> ConfigManager" where
  "Get key c =
     (case values c key of
        None \<Rightarrow> ((VNil, False), c)
      | Some v \<Rightarrow> ((v, True), c))"

definition GetString :: "string \<Rightarrow> ConfigManager \<Rightarrow> (string \<times> bool) \<times> ConfigManager" where
  "GetString key c =
     (case Get key c of ((v, exists), c') \<Rightarrow>
        if \<not> exists then (([], False), c')
        else (case v of VString str \<Rightarrow> ((str, True), c') | _ \<Rightarrow> (([], False), c')))"

definition GetInt ::
  "float_to_int_impl \<Rightarrow> string \<Rightarrow> ConfigManager \<Rightarrow> (go_int \<times> bool) \<times> ConfigManager" where
  "GetInt impl key c =
     (case Get key c of ((v, exists), c') \<Rightarrow>
        if \<not> exists then ((0, False), c')
        else (case v of
                VInt i \<Rightarrow> ((i, True), c')
              | VFloat f \<Rightarrow> ((float64_to_int impl f, True), c')
              | _ \<Rightarrow> ((0, False), c')))"

definition GetBool :: "string \<Rightarrow> ConfigManager \<Rightarrow> (bool \<times> bool) \<times> ConfigManager" where
  "GetBool key c =
     (case Get key c of ((v, exists), c') \<Rightarrow>
        if \<not> exists then ((False, False), c')
        else (case v of VBool b \<Rightarrow> ((b, True), c') | _ \<Rightarrow> ((False, False), c')))"

definition GetFloat :: "string \<Rightarrow> ConfigManager \<Rightarrow> (float64 \<times> bool) \<times> ConfigManager" where
  "GetFloat key c =
     (case Get key c of ((v, exists), c') \<Rightarrow>
        if \<not> exists then ((Finite 0, False), c')
        else (case v of
                VFloat f \<Rightarrow> ((f, True), c')
              | VInt i \<Rightarrow> ((int_to_float64 i, True), c')
              | _ \<Rightarrow> ((Finite 0, False), c')))"

text \<open>
  The loop of \<^verbatim>\<open>GetStringSlice\<close> over a \<^verbatim>\<open>[]any\<close>: \<open>i\<close> is the index of the next item
  and \<open>result\<close> the slice being filled.
\<close>

fun GetStringSlice_loop :: "any list \<Rightarrow> nat \<Rightarrow> string list \<Rightarrow> string slice \<times> bool" where
  "GetStringSlice_loop [] i result = (Some result, True)"
| "GetStringSlice_loop (item # rest) i result =
     (case item of
        VString str \<Rightarrow> GetStringSlice_loop rest (Suc i) (result[i := str])
      | _ \<Rightarrow> (None, False))"

definition GetStringSlice ::
  "string \<Rightarrow> ConfigManager \<Rightarrow> (string slice \<times> bool) \<times> ConfigManager" where
  "GetStringSlice key c =
     (case Get key c of ((v, exists), c') \<Rightarrow>
        if \<not> exists then ((None, False), c')
        else (case v of
                VStringSlice s \<Rightarrow> ((s, True), c')
              | VAnySlice s \<Rightarrow>
                  (GetStringSlice_loop (elems s) 0 (replicate (length (elems s)) []), c')
              | _ \<Rightarrow> ((None, False), c')))"

definition Set :: "string \<Rightarrow> any \<Rightarrow> ConfigManager \<Rightarrow> error option \<times> ConfigManager" where
  "Set key v c = (None, c\<lparr>values := (values c)(key \<mapsto> v)\<rparr>)"

text \<open>
  What \<^verbatim>\<open>source.Load()\<close> returns: the produced map and the error. The map is given by
  its entries in the order the \<^verbatim>\<open>range\<close> loop of \<^verbatim>\<open>Load\<close> visits them (Go fixes no order;
  a map holds each key once).
\<close>

type_synonym source_result = "(string \<times> any) list \<times> error option"

fun Load_loop :: "(string \<times> any) list \<Rightarrow> valuemap \<Rightarrow> valuemap" where
  "Load_loop [] m = m"
| "Load_loop ((k, v) # rest) m = Load_loop rest (m(k \<mapsto> v))"

definition Load :: "source_result \<Rightarrow> ConfigManager \<Rightarrow> error option \<times> ConfigManager" where
  "Load source c =
     (case source of (vals, err) \<Rightarrow>
        (case err of
           Some e \<Rightarrow> (Some (FailedToLoad e), c)
         | None \<Rightarrow> (None, c\<lparr>values := Load_loop vals (values c)\<rparr>)))"

text \<open>
  The loop of \<^verbatim>\<open>Validate\<close> over \<^verbatim>\<open>c.validators\<close>, every validator being handed
  \<^verbatim>\<open>c.values\<close>. Beside the error the loop returns the validators whose \<^verbatim>\<open>Validate\<close> method
  it has called, in the order of the calls.
\<close>

fun Validate_loop ::
  "float_to_int_impl \<Rightarrow> validator list \<Rightarrow> valuemap \<Rightarrow> error option \<times> validator list" where
  "Validate_loop impl [] vals = (None, [])"
| "Validate_loop impl (v # vs) vals =
     (case validator_Validate impl v vals of
        Some err \<Rightarrow> (Some err, [v])
      | None \<Rightarrow> (case Validate_loop impl vs vals of (r, called) \<Rightarrow> (r, v # called)))"

definition Validate :: "float_to_int_impl \<Rightarrow> ConfigManager \<Rightarrow> error option \<times> ConfigManager" where
  "Validate impl c = (fst (Validate_loop impl (validators c) (values c)), c)"

definition Validate_called :: "float_to_int_impl \<Rightarrow> ConfigManager \<Rightarrow> validator list" where
  "Validate_called impl c = snd (Validate_loop impl (validators c) (values c))"

definition AddValidator :: "validator \<Rightarrow> ConfigManager \<Rightarrow> ConfigManager" where
  "AddValidator v c = c\<lparr>validators := validators c @ [v]\<rparr>"

section \<open>Auxiliary facts\<close>



text \<open>With each key once, the loop of \<^verbatim>\<open>Load\<close> is the overriding of one map by another,
  whatever the order of the entries.\<close>

lemma Load_loop_distinct:
  "distinct (map fst kvs) \<Longrightarrow> Load_loop kvs m = m ++ map_of kvs"
proof (induction kvs arbitrary: m)
  case Nil
  show ?case by simp
next
  case (Cons kv kvs)
  obtain k v where kv: "kv = (k, v)" by (cases kv)
  from Cons.prems kv have fresh: "k \<notin> fst ` set kvs" and d: "distinct (map fst kvs)"
    by auto
  have "Load_loop (kv # kvs) m = m(k \<mapsto> v) ++ map_of kvs"
    unfolding kv by (simp only: Load_loop.simps Cons.IH [OF d])
  also have "\<dots> = m ++ map_of (kv # kvs)"
  proof (rule ext)
    fix x
    from fresh have none: "map_of kvs k = None"
      by (simp add: map_of_eq_None_iff)
    show "(m(k \<mapsto> v) ++ map_of kvs) x = (m ++ map_of (kv # kvs)) x"
    proof (cases "x = k")
      case True
      with none kv show ?thesis by (simp add: map_add_def)
    next
      case False
      with kv show ?thesis by (simp add: map_add_def split: option.split)
    qed
  qed
  finally show ?case .
qed




lemma sint_word_of_int_in_range:
  "- (2 ^ 63) \<le> t \<Longrightarrow> t < 2 ^ 63 \<Longrightarrow> sint (word_of_int t :: go_int) = t"
  by (simp add: sint_sbintrunc' signed_take_bit_int_eq_self)

lemma RequiredValidator_all_present:
  "RequiredValidator_Validate keys vals = None \<longleftrightarrow> (\<forall>k \<in> set keys. vals k \<noteq> None)"
  by (induction keys) (auto split: option.split)

lemma RequiredValidator_first_missing:
  "\<forall>p \<in> set pre. vals p \<noteq> None \<Longrightarrow> vals k = None \<Longrightarrow>
   RequiredValidator_Validate (pre @ k # post) vals = Some (RequiredKeyMissing k)"
  by (induction pre) (auto split: option.split)

lemma Validate_loop_all_pass:
  "\<forall>u \<in> set vs. validator_Validate impl u vals = None \<Longrightarrow>
   Validate_loop impl vs vals = (None, vs)"
  by (induction vs) auto

lemma Validate_loop_first_failure:
  "\<forall>u \<in> set pre. validator_Validate impl u vals = None \<Longrightarrow>
   validator_Validate impl v vals = Some e \<Longrightarrow>
   Validate_loop impl (pre @ v # post) vals = (Some e, pre @ [v])"
  by (induction pre) auto

text \<open>The loop of \<^verbatim>\<open>GetStringSlice\<close>, started at index \<open>i\<close> with \<open>length ss\<close> places left in
  \<open>result\<close>, fills exactly these places.\<close>

lemma GetStringSlice_loop_strings:
  "i + length ss = length result \<Longrightarrow>
   GetStringSlice_loop (map VString ss) i result = (Some (take i result @ ss), True)"
proof (induction ss arbitrary: i result)
  case Nil
  then show ?case by simp
next
  case (Cons s ss)
  from Cons.prems have i: "i < length result" and len: "Suc i + length ss = length (result[i := s])"
    by simp_all
  have "take (Suc i) (result[i := s]) = take i result @ [s]"
    using i by (simp add: take_Suc_conv_app_nth)
  with Cons.IH [OF len] show ?case by simp
qed

lemma GetStringSlice_loop_mixed:
  "\<exists>x \<in> set xs. \<forall>s. x \<noteq> VString s \<Longrightarrow> GetStringSlice_loop xs i result = (None, False)"
  by (induction xs arbitrary: i result) (auto split: any.split)


















section \<open>The value store\<close>

text \<open>
  C3. For every key \<open>k\<close>, value \<open>v\<close> and manager \<open>c\<close>, \<^verbatim>\<open>Set(k, v)\<close> returns \<^verbatim>\<open>nil\<close>, and
  \<^verbatim>\<open>Get(k)\<close> on the manager \<^verbatim>\<open>Set\<close> leaves returns \<^verbatim>\<open>(v, true)\<close>.
\<close>

theorem Set_Get_round_trip:
  "fst (Set k v c) = None \<and> fst (Get k (snd (Set k v c))) = (v, True)"
  by (simp add: Set_def Get_def)

text \<open>
  C9. \<^verbatim>\<open>Get\<close>, \<^verbatim>\<open>GetString\<close>, \<^verbatim>\<open>GetInt\<close>, \<^verbatim>\<open>GetBool\<close>, \<^verbatim>\<open>GetFloat\<close>, \<^verbatim>\<open>GetStringSlice\<close> and
  \<^verbatim>\<open>Validate\<close> return the manager as they found it: the map of values and the list of
  validators are the same after the call, for every manager and every key.
\<close>

theorem reads_leave_store:
  "snd (Get key c) = c
   \<and> snd (GetString key c) = c
   \<and> snd (GetInt impl key c) = c
   \<and> snd (GetBool key c) = c
   \<and> snd (GetFloat key c) = c
   \<and> snd (GetStringSlice key c) = c
   \<and> snd (Validate impl c) = c"
  by (simp add: Get_def GetString_def GetInt_def GetBool_def GetFloat_def
      GetStringSlice_def Validate_def split: option.split any.split)

text \<open>
  C10. The manager made by \<^verbatim>\<open>New\<close> has an empty map and no validator; on it every
  accessor reports \<^verbatim>\<open>false\<close> for every key, with the zero value of its type, and
  \<^verbatim>\<open>Validate\<close> returns \<^verbatim>\<open>nil\<close>.
\<close>

theorem New_fresh:
  "values New = Map.empty \<and> validators New = []
   \<and> fst (Get k New) = (VNil, False)
   \<and> fst (GetString k New) = ([], False)
   \<and> fst (GetInt impl k New) = (0, False)
   \<and> fst (GetBool k New) = (False, False)
   \<and> fst (GetFloat k New) = (Finite 0, False)
   \<and> fst (GetStringSlice k New) = (None, False)
   \<and> fst (Validate impl New) = None"
  by (simp add: New_def Get_def GetString_def GetInt_def GetBool_def GetFloat_def
      GetStringSlice_def Validate_def)

section \<open>Typed accessors\<close>

text \<open>
  C4, as the code has it. \<^verbatim>\<open>GetInt(k)\<close> returns \<^verbatim>\<open>(n, true)\<close> when the stored value is the
  integer \<open>n\<close>; when it is a finite float \<open>r\<close> whose truncation towards zero lies in
  the range of \<^verbatim>\<open>int\<close>, it returns that truncation with \<^verbatim>\<open>true\<close>; for every stored float it
  reports \<^verbatim>\<open>true\<close>; it returns \<^verbatim>\<open>(0, false)\<close> when the key is absent or the stored value
  is of any other dynamic type.
\<close>

theorem GetInt_coercion:
  "(values c key = Some (VInt n) \<longrightarrow> fst (GetInt impl key c) = (n, True))
   \<and> (\<forall>r. values c key = Some (VFloat (Finite r)) \<and> - (2 ^ 63) \<le> trunc r \<and> trunc r < 2 ^ 63
         \<longrightarrow> fst (GetInt impl key c) = (word_of_int (trunc r), True)
             \<and> sint (word_of_int (trunc r) :: go_int) = trunc r)
   \<and> (\<forall>f. values c key = Some (VFloat f) \<longrightarrow> snd (fst (GetInt impl key c)) = True)
   \<and> (values c key = None \<longrightarrow> fst (GetInt impl key c) = (0, False))
   \<and> (\<forall>v. values c key = Some v \<and> (\<forall>i. v \<noteq> VInt i) \<and> (\<forall>f. v \<noteq> VFloat f)
         \<longrightarrow> fst (GetInt impl key c) = (0, False))"
proof -
  have other: "fst (GetInt impl key c) = (0, False)"
    if "values c key = Some v" "\<forall>i. v \<noteq> VInt i" "\<forall>f. v \<noteq> VFloat f" for v
    using that by (cases v) (simp_all add: GetInt_def Get_def)
  show ?thesis
    using other by (simp add: GetInt_def Get_def float64_to_int_def sint_word_of_int_in_range)
qed

theorem GetInt_coercion_witness:
  "fst (GetInt impl_amd64 ''y'' (snd (Set ''y'' (VFloat (Finite (427 / 10))) New))) = (42, True)
   \<and> fst (GetInt impl_amd64 ''n'' (snd (Set ''n'' (VFloat (Finite (- (427 / 10)))) New))) = (- 42, True)
   \<and> fst (GetInt impl_amd64 ''x'' (snd (Set ''x'' (VInt 42) New))) = (42, True)
   \<and> fst (GetInt impl_amd64 ''z'' (snd (Set ''z'' (VString ''hi'') New))) = (0, False)
   \<and> fst (GetInt impl_amd64 ''w'' (snd (Set ''z'' (VString ''hi'') New))) = (0, False)"
proof -
  let ?y = "snd (Set ''y'' (VFloat (Finite (427 / 10))) New)"
  let ?n = "snd (Set ''n'' (VFloat (Finite (- (427 / 10)))) New)"
  let ?x = "snd (Set ''x'' (VInt 42) New)"
  let ?z = "snd (Set ''z'' (VString ''hi'') New)"
  have ty: "trunc (427 / 10) = 42" and tn: "trunc (- (427 / 10)) = - 42"
    by (simp_all add: trunc_def)
  have "values ?y ''y'' = Some (VFloat (Finite (427 / 10)))
        \<and> - (2 ^ 63) \<le> trunc (427 / 10) \<and> trunc (427 / 10) < 2 ^ 63"
    by (simp add: Set_def ty)
  with GetInt_coercion [of ?y "''y''" _ impl_amd64]
  have "fst (GetInt impl_amd64 ''y'' ?y) = (word_of_int (trunc (427 / 10)), True)"
    by blast
  then have y: "fst (GetInt impl_amd64 ''y'' ?y) = (42, True)"
    by (simp add: ty)
  have "values ?n ''n'' = Some (VFloat (Finite (- (427 / 10))))
        \<and> - (2 ^ 63) \<le> trunc (- (427 / 10)) \<and> trunc (- (427 / 10)) < 2 ^ 63"
    by (simp add: Set_def tn)
  with GetInt_coercion [of ?n "''n''" _ impl_amd64]
  have "fst (GetInt impl_amd64 ''n'' ?n) = (word_of_int (trunc (- (427 / 10))), True)"
    by blast
  then have n: "fst (GetInt impl_amd64 ''n'' ?n) = (- 42, True)"
    by (simp add: tn)
  have "values ?x ''x'' = Some (VInt 42)"
    by (simp add: Set_def)
  with GetInt_coercion [of ?x "''x''" 42 impl_amd64]
  have x: "fst (GetInt impl_amd64 ''x'' ?x) = (42, True)" by blast
  have "values ?z ''z'' = Some (VString ''hi'') \<and> (\<forall>i. VString ''hi'' \<noteq> VInt i)
        \<and> (\<forall>f. VString ''hi'' \<noteq> VFloat f)"
    by (simp add: Set_def)
  with GetInt_coercion [of ?z "''z''" _ impl_amd64]
  have z: "fst (GetInt impl_amd64 ''z'' ?z) = (0, False)" by blast
  have "values ?z ''w'' = None"
    by (simp add: Set_def New_def)
  with GetInt_coercion [of ?z "''w''" _ impl_amd64]
  have "fst (GetInt impl_amd64 ''w'' ?z) = (0, False)" by blast
  with y n x z show ?thesis by simp
qed

text \<open>
  C4, as the claim has it, fails for a float whose truncation \<^verbatim>\<open>int\<close> cannot hold: with
  \<open>2^64\<close> stored, \<^verbatim>\<open>GetInt\<close> reports \<^verbatim>\<open>true\<close> with the least \<^verbatim>\<open>int\<close> on x86-64 and the
  greatest on arm64, neither of which is the truncation \<open>2^64\<close>.
\<close>

theorem GetInt_float_out_of_range:
  "trunc (2 ^ 64) = 18446744073709551616
   \<and> snd (fst (GetInt impl_amd64 ''y'' (snd (Set ''y'' (VFloat (Finite (2 ^ 64))) New)))) = True
   \<and> sint (fst (fst (GetInt impl_amd64 ''y'' (snd (Set ''y'' (VFloat (Finite (2 ^ 64))) New)))))
       = - 9223372036854775808
   \<and> snd (fst (GetInt impl_arm64 ''y'' (snd (Set ''y'' (VFloat (Finite (2 ^ 64))) New)))) = True
   \<and> sint (fst (fst (GetInt impl_arm64 ''y'' (snd (Set ''y'' (VFloat (Finite (2 ^ 64))) New)))))
       = 9223372036854775807"
  by (simp add: GetInt_def Get_def Set_def New_def float64_to_int_def trunc_def
      impl_amd64_def impl_arm64_def sint_word_of_int_in_range)

text \<open>
  C5. \<^verbatim>\<open>GetStringSlice(k)\<close> returns the stored slice with \<^verbatim>\<open>true\<close> when the stored value is
  a \<^verbatim>\<open>[]string\<close>; the strings \<open>ss\<close> with \<^verbatim>\<open>true\<close> when it is a \<^verbatim>\<open>[]any\<close> whose elements are
  the strings \<open>ss\<close>; and \<^verbatim>\<open>(nil, false)\<close> when the key is absent, when the stored value is
  of any other dynamic type, or when some element of the \<^verbatim>\<open>[]any\<close> is not a string.
\<close>

theorem GetStringSlice_all_or_nothing:
  "(values c key = Some (VStringSlice s) \<longrightarrow> fst (GetStringSlice key c) = (s, True))
   \<and> (\<forall>ss. values c key = Some (VAnySlice xs) \<and> elems xs = map VString ss
         \<longrightarrow> fst (GetStringSlice key c) = (Some ss, True))
   \<and> (values c key = None \<longrightarrow> fst (GetStringSlice key c) = (None, False))
   \<and> (\<forall>v. values c key = Some v \<and> (\<forall>s. v \<noteq> VStringSlice s) \<and> (\<forall>xs. v \<noteq> VAnySlice xs)
         \<longrightarrow> fst (GetStringSlice key c) = (None, False))
   \<and> (values c key = Some (VAnySlice xs) \<and> (\<exists>x \<in> set (elems xs). \<forall>s. x \<noteq> VString s)
         \<longrightarrow> fst (GetStringSlice key c) = (None, False))"
proof -
  have strs: "fst (GetStringSlice key c) = (Some ss, True)"
    if "values c key = Some (VAnySlice xs)" "elems xs = map VString ss" for ss
    using that GetStringSlice_loop_strings [of 0 ss "replicate (length ss) []"]
    by (simp add: GetStringSlice_def Get_def)
  have other: "fst (GetStringSlice key c) = (None, False)"
    if "values c key = Some v" "\<forall>s. v \<noteq> VStringSlice s" "\<forall>xs. v \<noteq> VAnySlice xs" for v
    using that by (cases v) (simp_all add: GetStringSlice_def Get_def)
  have mixed: "fst (GetStringSlice key c) = (None, False)"
    if "values c key = Some (VAnySlice xs)" "\<exists>x \<in> set (elems xs). \<forall>s. x \<noteq> VString s"
    using that GetStringSlice_loop_mixed [of "elems xs" 0 "replicate (length (elems xs)) []"]
    by (simp add: GetStringSlice_def Get_def)
  show ?thesis
    using strs other mixed by (simp add: GetStringSlice_def Get_def)
qed

theorem GetStringSlice_all_or_nothing_witness:
  "fst (GetStringSlice ''l''
          (snd (Set ''l'' (VAnySlice (Some [VString ''a'', VInt 1, VString ''c''])) New)))
     = (None, False)
   \<and> fst (GetStringSlice ''l''
          (snd (Set ''l'' (VAnySlice (Some [VString ''a'', VString ''b''])) New)))
     = (Some [''a'', ''b''], True)
   \<and> fst (GetStringSlice ''l''
          (snd (Set ''l'' (VStringSlice (Some [''one'', ''two'', ''three''])) New)))
     = (Some [''one'', ''two'', ''three''], True)
   \<and> fst (GetStringSlice ''l'' (snd (Set ''l'' (VInt 7) New))) = (None, False)
   \<and> fst (GetStringSlice ''m'' (snd (Set ''l'' (VInt 7) New))) = (None, False)"
proof -
  let ?mixed = "Some [VString ''a'', VInt 1, VString ''c'']"
  let ?strs = "Some [VString ''a'', VString ''b'']"
  let ?cm = "snd (Set ''l'' (VAnySlice ?mixed) New)"
  let ?cs = "snd (Set ''l'' (VAnySlice ?strs) New)"
  let ?ct = "snd (Set ''l'' (VStringSlice (Some [''one'', ''two'', ''three''])) New)"
  let ?ci = "snd (Set ''l'' (VInt 7) New)"
  have "values ?cm ''l'' = Some (VAnySlice ?mixed)
        \<and> (\<exists>x \<in> set (elems ?mixed). \<forall>s. x \<noteq> VString s)"
    by (simp add: Set_def elems_def)
  with GetStringSlice_all_or_nothing [of ?cm "''l''" _ ?mixed]
  have mixed: "fst (GetStringSlice ''l'' ?cm) = (None, False)"
    by blast
  have "values ?cs ''l'' = Some (VAnySlice ?strs) \<and> elems ?strs = map VString [''a'', ''b'']"
    by (simp add: Set_def elems_def)
  with GetStringSlice_all_or_nothing [of ?cs "''l''" _ ?strs]
  have strs: "fst (GetStringSlice ''l'' ?cs) = (Some [''a'', ''b''], True)"
    by blast
  have "values ?ct ''l'' = Some (VStringSlice (Some [''one'', ''two'', ''three'']))"
    by (simp add: Set_def)
  with GetStringSlice_all_or_nothing [of ?ct "''l''" "Some [''one'', ''two'', ''three'']"]
  have typed: "fst (GetStringSlice ''l'' ?ct) = (Some [''one'', ''two'', ''three''], True)"
    by blast
  have "values ?ci ''l'' = Some (VInt 7) \<and> (\<forall>s. VInt 7 \<noteq> VStringSlice s)
        \<and> (\<forall>xs. VInt 7 \<noteq> VAnySlice xs)"
    by (simp add: Set_def)
  with GetStringSlice_all_or_nothing [of ?ci "''l''"]
  have other: "fst (GetStringSlice ''l'' ?ci) = (None, False)"
    by blast
  have "values ?ci ''m'' = None"
    by (simp add: Set_def New_def)
  with GetStringSlice_all_or_nothing [of ?ci "''m''"]
  have "fst (GetStringSlice ''m'' ?ci) = (None, False)"
    by blast
  with mixed strs typed other show ?thesis by simp
qed

section \<open>Loading from a source\<close>

text \<open>
  C2. When the source's \<^verbatim>\<open>Load\<close> returns an error \<open>e\<close>, whatever map comes with it,
  \<^verbatim>\<open>ConfigManager.Load\<close> returns the error \<^verbatim>\<open>"failed to load configuration: %w"\<close> that wraps
  \<open>e\<close>, and the manager afterwards is the manager before.
\<close>

theorem Load_failure_atomic:
  "Load (vals, Some e) c = (Some (FailedToLoad e), c) \<and> Unwrap (FailedToLoad e) = Some e"
  by (simp add: Load_def)

text \<open>
  C1. Let sources A and B produce the maps with entries \<open>a\<close> and \<open>b\<close> (each key once)
  and no error. \<^verbatim>\<open>Load(A)\<close> then \<^verbatim>\<open>Load(B)\<close> both return \<^verbatim>\<open>nil\<close>, and afterwards: every key of
  \<open>b\<close> has the value \<open>b\<close> gives it; every key of \<open>a\<close> that is not a key of \<open>b\<close> has the value
  \<open>a\<close> gives it; every key of neither is as it was before the two loads (with its former
  value, or absent). The validators are untouched.
\<close>

theorem Load_precedence:
  assumes "distinct (map fst a)" and "distinct (map fst b)"
    and "Load (a, None) c = (ra, c1)" and "Load (b, None) c1 = (rb, c2)"
  shows "ra = None \<and> rb = None
    \<and> (\<forall>(k, v) \<in> set b. fst (Get k c2) = (v, True))
    \<and> (\<forall>(k, v) \<in> set a. k \<notin> fst ` set b \<longrightarrow> fst (Get k c2) = (v, True))
    \<and> (\<forall>k. k \<notin> fst ` set a \<and> k \<notin> fst ` set b \<longrightarrow> values c2 k = values c k)
    \<and> validators c2 = validators c"
proof -
  from assms(3) have c1: "c1 = c\<lparr>values := values c ++ map_of a\<rparr>" and ra: "ra = None"
    by (simp_all add: Load_def Load_loop_distinct [OF assms(1)])
  from assms(4) have c2: "c2 = c1\<lparr>values := values c1 ++ map_of b\<rparr>" and rb: "rb = None"
    by (simp_all add: Load_def Load_loop_distinct [OF assms(2)])
  have vals: "values c2 = (values c ++ map_of a) ++ map_of b"
    by (simp add: c1 c2)
  have inb: "fst (Get k c2) = (v, True)" if "(k, v) \<in> set b" for k v
  proof -
    from that assms(2) have "map_of b k = Some v" by simp
    then show ?thesis by (simp add: Get_def vals)
  qed
  have ina: "fst (Get k c2) = (v, True)" if "(k, v) \<in> set a" "k \<notin> fst ` set b" for k v
  proof -
    from that(1) assms(1) have "map_of a k = Some v" by simp
    moreover from that(2) have "map_of b k = None" by (simp add: map_of_eq_None_iff)
    ultimately show ?thesis by (simp add: Get_def vals map_add_def)
  qed
  have neither: "values c2 k = values c k" if "k \<notin> fst ` set a" "k \<notin> fst ` set b" for k
  proof -
    from that have "map_of a k = None" "map_of b k = None"
      by (simp_all add: map_of_eq_None_iff)
    then show ?thesis by (simp add: vals map_add_def)
  qed
  have "validators c2 = validators c"
    by (simp add: c1 c2)
  with ra rb inb ina neither show ?thesis
    by (auto simp del: fst_conv)
qed

theorem Load_precedence_witness:
  "distinct (map fst [(''port'', VInt 8080), (''host'', VString ''localhost'')])
   \<and> distinct (map fst [(''port'', VInt 9090)])
   \<and> fst (Get ''port'' (snd (Load ([(''port'', VInt 9090)], None)
         (snd (Load ([(''port'', VInt 8080), (''host'', VString ''localhost'')], None) New)))))
       = (VInt 9090, True)
   \<and> fst (Get ''host'' (snd (Load ([(''port'', VInt 9090)], None)
         (snd (Load ([(''port'', VInt 8080), (''host'', VString ''localhost'')], None) New)))))
       = (VString ''localhost'', True)"
proof -
  let ?a = "[(''port'', VInt 8080), (''host'', VString ''localhost'')]"
  let ?b = "[(''port'', VInt 9090)]"
  let ?c1 = "snd (Load (?a, None) New)"
  let ?c2 = "snd (Load (?b, None) ?c1)"
  have da: "distinct (map fst ?a)" and db: "distinct (map fst ?b)"
    by simp_all
  have la: "Load (?a, None) New = (None, ?c1)" and lb: "Load (?b, None) ?c1 = (None, ?c2)"
    by (simp_all add: Load_def)
  from Load_precedence [OF da db la lb] da db show ?thesis
    by simp
qed

section \<open>Validation\<close>

text \<open>
  C8. \<^verbatim>\<open>RequiredValidator\<close> returns \<^verbatim>\<open>nil\<close> exactly when every key of its list is in the
  map; when a key of the list is absent and all keys before it in the list are present,
  it returns the error \<^verbatim>\<open>"required configuration key missing: %s"\<close> for that key.
\<close>

theorem RequiredValidator_semantics:
  "(RequiredValidator_Validate keys vals = None \<longleftrightarrow> (\<forall>k \<in> set keys. vals k \<noteq> None))
   \<and> (\<forall>pre k post. keys = pre @ k # post \<and> (\<forall>p \<in> set pre. vals p \<noteq> None) \<and> vals k = None
        \<longrightarrow> RequiredValidator_Validate keys vals = Some (RequiredKeyMissing k))"
  using RequiredValidator_all_present RequiredValidator_first_missing by blast

theorem RequiredValidator_semantics_witness:
  "RequiredValidator_Validate [''host'', ''port'', ''debug''] [''host'' \<mapsto> VString ''localhost'']
     = Some (RequiredKeyMissing ''port'')
   \<and> RequiredValidator_Validate [''host''] [''host'' \<mapsto> VString ''localhost''] = None"
proof -
  let ?vals = "[''host'' \<mapsto> VString ''localhost'']"
  have "[''host'', ''port'', ''debug''] = [''host''] @ ''port'' # [''debug'']
        \<and> (\<forall>p \<in> set [''host'']. ?vals p \<noteq> None) \<and> ?vals ''port'' = None"
    by simp
  with RequiredValidator_semantics [of "[''host'', ''port'', ''debug'']" ?vals]
  have first: "RequiredValidator_Validate [''host'', ''port'', ''debug''] ?vals
      = Some (RequiredKeyMissing ''port'')"
    by blast
  have "\<forall>k \<in> set [''host'']. ?vals k \<noteq> None"
    by simp
  with RequiredValidator_semantics [of "[''host'']" ?vals]
  have "RequiredValidator_Validate [''host''] ?vals = None"
    by blast
  with first show ?thesis by simp
qed




text \<open>
  C6. \<^verbatim>\<open>AddValidator\<close> appends to the list and leaves the values alone. \<^verbatim>\<open>Validate\<close> hands
  the one map \<^verbatim>\<open>c.values\<close> to the validators in the order of the list: when a validator
  fails and all before it in the list pass, \<^verbatim>\<open>Validate\<close> returns its error, having called
  the validators up to it and none after it; when all pass, \<^verbatim>\<open>Validate\<close> returns \<^verbatim>\<open>nil\<close>,
  having called them all in order.
\<close>

theorem Validate_order_short_circuit:
  "(\<forall>pre v post e.
      validators c = pre @ v # post
      \<and> (\<forall>u \<in> set pre. validator_Validate impl u (values c) = None)
      \<and> validator_Validate impl v (values c) = Some e
      \<longrightarrow> fst (Validate impl c) = Some e \<and> Validate_called impl c = pre @ [v])
   \<and> ((\<forall>u \<in> set (validators c). validator_Validate impl u (values c) = None)
      \<longrightarrow> fst (Validate impl c) = None \<and> Validate_called impl c = validators c)
   \<and> validators (AddValidator w c) = validators c @ [w]
   \<and> values (AddValidator w c) = values c"
  by (simp add: Validate_def Validate_called_def AddValidator_def
      Validate_loop_all_pass Validate_loop_first_failure)

theorem Validate_order_short_circuit_witness:
  "fst (Validate impl_amd64
          (AddValidator (CustomValidator (\<lambda>_. Some (ErrorString ''validation failed'')))
            (AddValidator (RequiredValidator [''a'']) New)))
     = Some (RequiredKeyMissing ''a'')
   \<and> Validate_called impl_amd64
          (AddValidator (CustomValidator (\<lambda>_. Some (ErrorString ''validation failed'')))
            (AddValidator (RequiredValidator [''a'']) New))
     = [RequiredValidator [''a'']]
   \<and> fst (Validate impl_amd64
          (AddValidator (RequiredValidator [''a'']) (snd (Set ''a'' (VInt 1) New))))
     = None"
proof -
  let ?failing = "CustomValidator (\<lambda>_. Some (ErrorString ''validation failed''))"
  let ?c = "AddValidator ?failing (AddValidator (RequiredValidator [''a'']) New)"
  let ?d = "AddValidator (RequiredValidator [''a'']) (snd (Set ''a'' (VInt 1) New))"
  have "validators ?c = [] @ RequiredValidator [''a''] # [?failing]
        \<and> (\<forall>u \<in> set []. validator_Validate impl_amd64 u (values ?c) = None)
        \<and> validator_Validate impl_amd64 (RequiredValidator [''a'']) (values ?c)
            = Some (RequiredKeyMissing ''a'')"
    by (simp add: AddValidator_def New_def)
  with Validate_order_short_circuit [of ?c impl_amd64]
  have first: "fst (Validate impl_amd64 ?c) = Some (RequiredKeyMissing ''a'')
      \<and> Validate_called impl_amd64 ?c = [] @ [RequiredValidator [''a'']]"
    by blast
  have "\<forall>u \<in> set (validators ?d). validator_Validate impl_amd64 u (values ?d) = None"
    by (simp add: AddValidator_def New_def Set_def)
  with Validate_order_short_circuit [of ?d impl_amd64]
  have "fst (Validate impl_amd64 ?d) = None"
    by blast
  with first show ?thesis by simp
qed

end
